theory Spec2Isabelle
  imports Main "HOL-Library.Word"
begin

section \<open>kafkabp: the consumer and producer supervisors\<close>

text \<open>
  A shallow embedding of package \<^verbatim>\<open>kafkabp\<close>: \<^verbatim>\<open>consumer.go\<close>,
  \<^verbatim>\<open>sarama_wrapper.go\<close>, and the two files that declare the producer
  (\<^verbatim>\<open>TopicAsyncProducer\<close>) and the configuration (\<^verbatim>\<open>config.go\<close>).
  The sarama client library, the metrics and the logger are collaborators outside the
  package. What they answer is a parameter (the record \<open>sarama\<close>), what the package
  does to them is recorded in an explicit \<open>world\<close> that every function threads through.
\<close>

subsection \<open>Values shared by the package\<close>

type_synonym int64 = "64 word"
type_synonym int32 = "32 word"

text \<open>\<^verbatim>\<open>sarama_wrapper.go\<close>: the offsets are sarama's (-2 and -1), the errors the package's
  own four; \<open>SaramaError\<close> stands for any error a collaborator returns.\<close>

definition OffsetOldest :: int64 where
  "OffsetOldest = - 2"

definition OffsetNewest :: int64 where
  "OffsetNewest = - 1"

datatype error =
    ErrBrokersEmpty
  | ErrTopicEmpty
  | ErrClientIDEmpty
  | ErrOffsetInvalid
  | SaramaError string

text \<open>How a call ends: it returns, it panics, or it blocks (it has not returned and cannot
  go on until another goroutine acts).\<close>

datatype 'a outcome = Returns 'a | Panics | Blocks

text \<open>The fields of \<^verbatim>\<open>sarama.Config\<close> that the package reads or writes.\<close>

record sarama_Config =
  Config_ClientID :: string
  Consumer_Return_Errors :: bool
  Consumer_Offsets_Initial :: int64
  Producer_RequiredAcks :: int
  Producer_Compression :: int
  Producer_Flush_Frequency :: int

text \<open>A session (\<^verbatim>\<open>sarama.Consumer\<close>) is named by the number of the
  \<^verbatim>\<open>NewSaramaConsumer\<close> call that opened it, a partition stream
  (\<^verbatim>\<open>sarama.PartitionConsumer\<close>) by its session and partition. A logger
  (\<^verbatim>\<open>log.Wrapper\<close>) is the package default or one a caller supplies.\<close>

type_synonym session = nat
type_synonym PartitionConsumer = "session \<times> int32"

datatype logger = ErrorWithSentryWrapper | CallerLogger nat

subsection \<open>The collaborators\<close>

text \<open>What the collaborators answer. \<open>DefaultSaramaConfig\<close> and \<open>NewSaramaConsumer\<close>
  are functions of the package that \<^verbatim>\<open>consumer.go\<close> calls and whose source is not
  present; they are parameters like sarama's own functions. \<open>NewSaramaConsumer\<close> is
  asked with the number of the call, so successive calls may answer differently.\<close>

record sarama =
  DefaultSaramaConfig :: sarama_Config
  NewSaramaConsumer :: "nat \<Rightarrow> string list \<Rightarrow> sarama_Config option \<Rightarrow> error option"
  Partitions :: "session \<Rightarrow> string \<Rightarrow> error + int32 list"
  ConsumePartition :: "session \<Rightarrow> string \<Rightarrow> int32 \<Rightarrow> int64 \<Rightarrow> error option"
  session_Close :: "session \<Rightarrow> error option"
  NewConfig :: sarama_Config
  NewAsyncProducer :: "string list \<Rightarrow> sarama_Config \<Rightarrow> error option"
  producer_Close :: "error option"

subsection \<open>The producer\<close>

text \<open>\<^verbatim>\<open>ProducerConfig\<close> of \<^verbatim>\<open>config.go\<close>; a nil Logger is \<open>None\<close>.\<close>

record ProducerConfig =
  Brokers :: "string list"
  Logger :: "logger option"

text \<open>\<^verbatim>\<open>ProducerMessage\<close> of \<^verbatim>\<open>producer.go\<close>, and the \<^verbatim>\<open>sarama.ProducerMessage\<close>
  that \<^verbatim>\<open>Publish\<close> builds from it (its Key stays nil when the caller's key is empty).\<close>

record ProducerMessage =
  Topic :: string
  Data :: "8 word list"
  Key :: "8 word list"
  Timestamp :: int

record sarama_ProducerMessage =
  msg_Topic :: string
  msg_Key :: "8 word list option"
  msg_Value :: "8 word list"
  msg_Timestamp :: int

text \<open>The \<^verbatim>\<open>sarama.AsyncProducer\<close> behind the field Producer: the messages sent on its
  input channel so far, and whether that channel is closed. Its \<^verbatim>\<open>Close\<close> closes the
  channel, and a send on a closed channel panics.\<close>

record AsyncProducer =
  input :: "sarama_ProducerMessage list"
  input_closed :: bool

record TopicAsyncProducer =
  Producer :: AsyncProducer
  cfg :: ProducerConfig
  sc :: sarama_Config
  closed :: int64

text \<open>The log: which logger was called with which message, and the counter
  \<^verbatim>\<open>kafka.producer.errors\<close>.\<close>

record producer_log =
  entries :: "(logger option \<times> string) list"
  errors_counter :: nat

text \<open>\<^verbatim>\<open>ProducerConfig.NewSaramaConfig\<close>: \<^verbatim>\<open>sarama.WaitForLocal\<close> is 1,
  \<^verbatim>\<open>sarama.CompressionNone\<close> is 0, the frequency is in nanoseconds.\<close>

definition ProducerConfig_NewSaramaConfig ::
  "sarama \<Rightarrow> ProducerConfig \<Rightarrow> error + sarama_Config" where
  "ProducerConfig_NewSaramaConfig env pcfg =
     Inr ((NewConfig env)\<lparr>Producer_RequiredAcks := 1, Producer_Compression := 0,
                          Producer_Flush_Frequency := 100 * 1000000\<rparr>)"

text \<open>The goroutine of lines 66 to 72, run on the errors the channel delivers: each is
  logged with the Logger of the configuration the closure captured, and counted.\<close>

fun drain_errors :: "ProducerConfig \<Rightarrow> string list \<Rightarrow> producer_log \<Rightarrow> producer_log" where
  "drain_errors pcfg [] l = l"
| "drain_errors pcfg (e # es) l =
     drain_errors pcfg es
       (l\<lparr>entries := entries l @ [(Logger pcfg, e)], errors_counter := errors_counter l + 1\<rparr>)"

text \<open>\<^verbatim>\<open>InitTopicAsyncProducer\<close>. \<open>Inl\<close> is the pair of a nil producer and an error. On
  success the result is the producer together with the configuration that the
  error-draining goroutine has captured: the local \<^verbatim>\<open>cfg\<close> after line 65.\<close>

definition InitTopicAsyncProducer ::
  "sarama \<Rightarrow> ProducerConfig \<Rightarrow> error + TopicAsyncProducer \<times> ProducerConfig" where
  "InitTopicAsyncProducer env pcfg =
     (if length (Brokers pcfg) = 0 then Inl ErrBrokersEmpty
      else case ProducerConfig_NewSaramaConfig env pcfg of
             Inl err \<Rightarrow> Inl err
           | Inr c \<Rightarrow>
               (case NewAsyncProducer env (Brokers pcfg) c of
                  Some err \<Rightarrow> Inl err
                | None \<Rightarrow>
                    (let pcfg1 = pcfg\<lparr>Logger := Some ErrorWithSentryWrapper\<rparr>
                     in Inr (\<lparr>Producer = \<lparr>input = [], input_closed = False\<rparr>,
                              cfg = pcfg1, sc = c, closed = 0\<rparr>, pcfg1))))"

text \<open>A send on the input channel (line 99).\<close>

definition send_input ::
  "sarama_ProducerMessage \<Rightarrow> AsyncProducer \<Rightarrow> AsyncProducer outcome" where
  "send_input m p =
     (if input_closed p then Panics else Returns (p\<lparr>input := input p @ [m]\<rparr>))"

definition Publish ::
  "TopicAsyncProducer \<Rightarrow> ProducerMessage \<Rightarrow> producer_log
     \<Rightarrow> unit outcome \<times> TopicAsyncProducer \<times> producer_log" where
  "Publish tp msg l =
     (if closed tp \<noteq> 0
      then (Returns (), tp,
            l\<lparr>entries := entries l @
                 [(Logger (cfg tp),
                   ''kafkabp.TopicAsyncProducer: Publish called after Close is called'')]\<rparr>)
      else
        let message0 = \<lparr>msg_Topic = Topic msg, msg_Key = None, msg_Value = Data msg,
                         msg_Timestamp = Timestamp msg\<rparr>;
            message = (if length (Key msg) > 0 then message0\<lparr>msg_Key := Some (Key msg)\<rparr>
                       else message0)
        in (case send_input message (Producer tp) of
              Returns p \<Rightarrow> (Returns (), tp\<lparr>Producer := p\<rparr>, l)
            | Panics \<Rightarrow> (Panics, tp, l)
            | Blocks \<Rightarrow> (Blocks, tp, l)))"

text \<open>\<^verbatim>\<open>TopicAsyncProducer.Close\<close>: the flag, then the producer's own Close.\<close>

definition TopicAsyncProducer_Close ::
  "sarama \<Rightarrow> TopicAsyncProducer \<Rightarrow> error option \<times> TopicAsyncProducer" where
  "TopicAsyncProducer_Close env tp =
     (producer_Close env,
      tp\<lparr>closed := 1, Producer := (Producer tp)\<lparr>input_closed := True\<rparr>\<rparr>)"

text \<open>A run of Publish calls, stopping at the first that does not return.\<close>

fun Publish_all ::
  "TopicAsyncProducer \<Rightarrow> ProducerMessage list \<Rightarrow> producer_log
     \<Rightarrow> unit outcome \<times> TopicAsyncProducer \<times> producer_log" where
  "Publish_all tp [] l = (Returns (), tp, l)"
| "Publish_all tp (m # ms) l =
     (case Publish tp m l of
        (Returns u, tp1, l1) \<Rightarrow> Publish_all tp1 ms l1
      | (Panics, tp1, l1) \<Rightarrow> (Panics, tp1, l1)
      | (Blocks, tp1, l1) \<Rightarrow> (Blocks, tp1, l1))"

subsection \<open>Configuration of the consumer\<close>

text \<open>\<^verbatim>\<open>config.go\<close> declares \<^verbatim>\<open>ConsumerConfig\<close> with the fields Brokers, Topic,
  ClientID and a string Offset. \<^verbatim>\<open>consumer.go\<close> uses a \<^verbatim>\<open>ConsumerConfig\<close> whose
  Offset is compared with and assigned the int64 offsets, and which has two more fields:
  Tracing, a pointer to a bool, and SaramaConfig, a pointer to a \<^verbatim>\<open>sarama.Config\<close>.
  The record is therefore parametric in the type of Offset, and the two further fields
  form an extension; a nil pointer is \<open>None\<close>.\<close>

record 'o ConsumerConfig =
  Brokers :: "string list"
  Topic :: string
  ClientID :: string
  Offset :: 'o

record 'o ConsumerConfigX = "'o ConsumerConfig" +
  Tracing :: "bool option"
  SaramaConfig :: "sarama_Config option"


subsection \<open>The world\<close>

text \<open>What the package has done to the collaborators so far.\<close>

record world =
  attempts :: nat
  open_sessions :: "session list"
  session_closes :: "session list"
  streams :: "PartitionConsumer list"
  async_closes :: "PartitionConsumer list"
  rebalance_success :: nat
  rebalance_failure :: nat
  warnings :: "error list"

subsection \<open>The consumer\<close>

text \<open>The struct \<^verbatim>\<open>consumer\<close>. The three \<^verbatim>\<open>atomic.Value\<close> fields hold \<open>None\<close> until
  the first Store; \<open>wg\<close> is the counter of the \<^verbatim>\<open>sync.WaitGroup\<close>.\<close>

record consumer =
  cfg :: "int64 ConsumerConfigX"
  topic :: string
  offset :: int64
  tracing :: bool
  name :: string
  consumer :: "session option"
  partitions :: "int32 list option"
  partitionConsumers :: "PartitionConsumer list option"
  closed :: int64
  consumeReturned :: int64
  wg :: int

definition getConsumer :: "consumer \<Rightarrow> session option" where
  "getConsumer kc = consumer kc"

definition getPartitions :: "consumer \<Rightarrow> int32 list" where
  "getPartitions kc = (case partitions kc of None \<Rightarrow> [] | Some p \<Rightarrow> p)"

definition getPartitionConsumers :: "consumer \<Rightarrow> PartitionConsumer list" where
  "getPartitionConsumers kc = (case partitionConsumers kc of None \<Rightarrow> [] | Some pc \<Rightarrow> pc)"

text \<open>\<^verbatim>\<open>c.Close()\<close> on a session: the call is logged, the session is no longer open, and
  the collaborator's answer is returned.\<close>

definition close_session :: "sarama \<Rightarrow> session \<Rightarrow> world \<Rightarrow> error option \<times> world" where
  "close_session env c w =
     (session_Close env c,
      w\<lparr>session_closes := session_closes w @ [c],
        open_sessions := removeAll c (open_sessions w)\<rparr>)"

text \<open>\<^verbatim>\<open>NewSaramaConsumer(brokers, config)\<close>: on success a new session is open.\<close>

definition open_session ::
  "sarama \<Rightarrow> string list \<Rightarrow> sarama_Config option \<Rightarrow> world \<Rightarrow> (error + session) \<times> world" where
  "open_session env bs scfg w =
     (case NewSaramaConsumer env (attempts w) bs scfg of
        Some err \<Rightarrow> (Inl err, w\<lparr>attempts := Suc (attempts w)\<rparr>)
      | None \<Rightarrow>
          (Inr (attempts w),
           w\<lparr>attempts := Suc (attempts w),
             open_sessions := open_sessions w @ [attempts w]\<rparr>))"

text \<open>The closure \<^verbatim>\<open>rebalance\<close> of \<^verbatim>\<open>Reset\<close> (lines 73 to 87): a new session, its
  partitions, then the two stores. An early return stores nothing.\<close>

definition rebalance :: "sarama \<Rightarrow> consumer \<Rightarrow> world \<Rightarrow> error option \<times> consumer \<times> world" where
  "rebalance env kc w =
     (case open_session env (Brokers (cfg kc)) (SaramaConfig (cfg kc)) w of
        (Inl err, w1) \<Rightarrow> (Some err, kc, w1)
      | (Inr c, w1) \<Rightarrow>
          (case Partitions env c (Topic (cfg kc)) of
             Inl err \<Rightarrow> (Some err, kc, w1)
           | Inr ps \<Rightarrow> (None, kc\<lparr>consumer := Some c, partitions := Some ps\<rparr>, w1)))"

text \<open>\<^verbatim>\<open>Reset\<close>: close the stored session (an error is only logged), rebalance, count
  the result.\<close>

definition Reset :: "sarama \<Rightarrow> consumer \<Rightarrow> world \<Rightarrow> error option \<times> consumer \<times> world" where
  "Reset env kc w =
     (let w0 = (case getConsumer kc of
                  None \<Rightarrow> w
                | Some c \<Rightarrow>
                    (case close_session env c w of
                       (Some err, w') \<Rightarrow> w'\<lparr>warnings := warnings w' @ [err]\<rparr>
                     | (None, w') \<Rightarrow> w'))
      in case rebalance env kc w0 of
           (Some err, kc1, w1) \<Rightarrow>
              (Some err, kc1, w1\<lparr>rebalance_failure := rebalance_failure w1 + 1\<rparr>)
         | (None, kc1, w1) \<Rightarrow>
              (None, kc1, w1\<lparr>rebalance_success := rebalance_success w1 + 1\<rparr>))"

text \<open>\<^verbatim>\<open>NewConsumer\<close>. The configuration is a copy, so the writes to it are local; the
  write through \<^verbatim>\<open>cfg.Tracing\<close> at line 125 happens exactly when that pointer is nil,
  which is a nil dereference. \<open>Inl\<close> is the pair of a nil consumer and an error.\<close>

definition NewConsumer ::
  "sarama \<Rightarrow> int64 ConsumerConfigX \<Rightarrow> world \<Rightarrow> (error + consumer) outcome \<times> world" where
  "NewConsumer env cfg0 w =
     (let sc0 = (case SaramaConfig cfg0 of None \<Rightarrow> DefaultSaramaConfig env | Some c \<Rightarrow> c);
          sc1 = (if ClientID cfg0 \<noteq> [] then sc0\<lparr>Config_ClientID := ClientID cfg0\<rparr> else sc0)
      in if Config_ClientID sc1 = [] then (Returns (Inl ErrClientIDEmpty), w)
         else if length (Brokers cfg0) = 0 then (Returns (Inl ErrBrokersEmpty), w)
         else if Topic cfg0 = [] then (Returns (Inl ErrTopicEmpty), w)
         else
           let off = (if Offset cfg0 \<noteq> OffsetNewest then OffsetOldest else Offset cfg0)
           in case Tracing cfg0 of
                None \<Rightarrow> (Panics, w)
              | Some tr \<Rightarrow>
                  let sc2 = sc1\<lparr>Consumer_Return_Errors := True\<rparr>;
                      cfg1 = cfg0\<lparr>Offset := off, SaramaConfig := Some sc2\<rparr>;
                      kc = (\<lparr>cfg = cfg1, topic = Topic cfg1, offset = Offset cfg1,
                            tracing = tr, name = [], consumer = None, partitions = None,
                            partitionConsumers = None, closed = 0, consumeReturned = 0,
                            wg = 0\<rparr>)
                  in (case Reset env kc w of
                        (Some err, kc1, w1) \<Rightarrow> (Returns (Inl err), w1)
                      | (None, kc1, w1) \<Rightarrow> (Returns (Inr kc1), w1)))"

definition IsHealthy :: "consumer \<Rightarrow> bool" where
  "IsHealthy kc = (consumeReturned kc = 0)"

text \<open>What a concurrent reader of the three atomic fields can see while \<^verbatim>\<open>Reset\<close>
  runs: the struct before it, after the Store of line 84 and after the Store of line 85.
  A failed rebalance stores nothing.\<close>

definition Reset_snapshots :: "sarama \<Rightarrow> consumer \<Rightarrow> world \<Rightarrow> consumer list" where
  "Reset_snapshots env kc w =
     (let w0 = (case getConsumer kc of
                  None \<Rightarrow> w
                | Some c \<Rightarrow> snd (close_session env c w))
      in case open_session env (Brokers (cfg kc)) (SaramaConfig (cfg kc)) w0 of
           (Inl err, w1) \<Rightarrow> [kc]
         | (Inr c, w1) \<Rightarrow>
             (case Partitions env c (Topic (cfg kc)) of
                Inl err \<Rightarrow> [kc]
              | Inr ps \<Rightarrow>
                  [kc, kc\<lparr>consumer := Some c\<rparr>,
                   kc\<lparr>consumer := Some c, partitions := Some ps\<rparr>]))"

subsection \<open>Consume\<close>

text \<open>Lines 185 to 226: for each partition of the assignment a stream is opened on the
  session, and two goroutines are started on it. The first failure returns; a method
  call on a nil session panics.\<close>

fun open_streams ::
  "sarama \<Rightarrow> session option \<Rightarrow> string \<Rightarrow> int64 \<Rightarrow> int32 list \<Rightarrow> PartitionConsumer list
     \<Rightarrow> world \<Rightarrow> (error + PartitionConsumer list) outcome \<times> world" where
  "open_streams env c t off [] acc w = (Returns (Inr acc), w)"
| "open_streams env c t off (p # ps) acc w =
     (case c of
        None \<Rightarrow> (Panics, w)
      | Some s \<Rightarrow>
          (case ConsumePartition env s t p off of
             Some err \<Rightarrow> (Returns (Inl err), w)
           | None \<Rightarrow>
               open_streams env c t off ps (acc @ [(s, p)])
                 (w\<lparr>streams := streams w @ [(s, p)]\<rparr>)))"

text \<open>What happens around a running \<^verbatim>\<open>Consume\<close>: another goroutine's \<^verbatim>\<open>Close\<close> wins
  the compare-and-swap on the closed flag, or the \<^verbatim>\<open>wg.Wait()\<close> of line 229 returns
  (every worker of the round has finished). A run is observed along a finite list of such
  events; when the list ends inside the wait, \<^verbatim>\<open>Consume\<close> has not returned: \<open>Blocks\<close>.\<close>

datatype event = CloseCAS | WaitReturns

text \<open>The loop of lines 179 to 238: \<open>Consume_loop\<close> is the top of the loop body,
  \<open>wg_Wait\<close> the wait of line 229 and what follows it.\<close>

fun Consume_loop ::
  "sarama \<Rightarrow> event list \<Rightarrow> consumer \<Rightarrow> world \<Rightarrow> error option outcome \<times> consumer \<times> world"
and wg_Wait ::
  "sarama \<Rightarrow> event list \<Rightarrow> consumer \<Rightarrow> world \<Rightarrow> error option outcome \<times> consumer \<times> world"
where
  "Consume_loop env evs kc w =
     (case open_streams env (getConsumer kc) (topic kc) (offset kc) (getPartitions kc) [] w of
        (Returns (Inl err), w1) \<Rightarrow> (Returns (Some err), kc, w1)
      | (Returns (Inr pcs), w1) \<Rightarrow> wg_Wait env evs (kc\<lparr>partitionConsumers := Some pcs\<rparr>) w1
      | (Panics, w1) \<Rightarrow> (Panics, kc, w1)
      | (Blocks, w1) \<Rightarrow> (Blocks, kc, w1))"
| "wg_Wait env [] kc w = (Blocks, kc, w)"
| "wg_Wait env (CloseCAS # evs) kc w =
     wg_Wait env evs (if closed kc = 0 then kc\<lparr>closed := 1\<rparr> else kc) w"
| "wg_Wait env (WaitReturns # evs) kc w =
     (if closed kc \<noteq> 0 then (Returns None, kc, w)
      else case Reset env kc w of
             (Some err, kc1, w1) \<Rightarrow> (Returns (Some err), kc1, w1)
           | (None, kc1, w1) \<Rightarrow> Consume_loop env evs kc1 w1)"

text \<open>The deferred calls of \<^verbatim>\<open>Consume\<close> (lines 170 and 172) run when the loop returns or
  panics, last deferred first: \<^verbatim>\<open>wg.Done()\<close>, then the Store to \<^verbatim>\<open>consumeReturned\<close>.
  While the loop waits they have not run.\<close>

definition Consume_deferred ::
  "error option outcome \<times> consumer \<times> world \<Rightarrow> error option outcome \<times> consumer \<times> world" where
  "Consume_deferred res =
     (case res of
        (Blocks, kc1, w1) \<Rightarrow> (Blocks, kc1, w1)
      | (r, kc1, w1) \<Rightarrow> (r, kc1\<lparr>wg := wg kc1 - 1, consumeReturned := 1\<rparr>, w1))"

definition Consume ::
  "sarama \<Rightarrow> event list \<Rightarrow> consumer \<Rightarrow> world \<Rightarrow> error option outcome \<times> consumer \<times> world" where
  "Consume env evs kc w = Consume_deferred (Consume_loop env evs (kc\<lparr>wg := wg kc + 1\<rparr>) w)"

subsection \<open>Close\<close>

text \<open>\<^verbatim>\<open>Close\<close> as one call that nothing interleaves with. The wait on \<^verbatim>\<open>kc.wg\<close> blocks
  while a \<^verbatim>\<open>Consume\<close> is in flight.\<close>

definition Close :: "sarama \<Rightarrow> consumer \<Rightarrow> world \<Rightarrow> error option outcome \<times> consumer \<times> world" where
  "Close env kc w =
     (if closed kc \<noteq> 0 then (Returns None, kc, w)
      else
        let kc1 = kc\<lparr>closed := 1\<rparr>;
            w1 = w\<lparr>async_closes := async_closes w @ getPartitionConsumers kc1\<rparr>
        in if wg kc1 \<noteq> 0 then (Blocks, kc1, w1)
           else (case getConsumer kc1 of
                   None \<Rightarrow> (Panics, kc1, w1)
                 | Some c \<Rightarrow>
                     (case close_session env c w1 of
                        (r, w2) \<Rightarrow> (Returns r, kc1, w2))))"

text \<open>The same function cut at its atomic actions, for calls that interleave: where a
  call stands, and what its next action does to the consumer and the world.\<close>

datatype close_pc =
    AtCAS
  | AtLoad
  | AtAsyncClose "PartitionConsumer list"
  | AtWait
  | AtSessionClose
  | Finished "error option outcome"

fun Close_step :: "sarama \<Rightarrow> close_pc \<Rightarrow> consumer \<Rightarrow> world \<Rightarrow> close_pc \<times> consumer \<times> world" where
  "Close_step env AtCAS kc w =
     (if closed kc = 0 then (AtLoad, kc\<lparr>closed := 1\<rparr>, w)
      else (Finished (Returns None), kc, w))"
| "Close_step env AtLoad kc w = (AtAsyncClose (getPartitionConsumers kc), kc, w)"
| "Close_step env (AtAsyncClose []) kc w = (AtWait, kc, w)"
| "Close_step env (AtAsyncClose (pc # pcs)) kc w =
     (AtAsyncClose pcs, kc, w\<lparr>async_closes := async_closes w @ [pc]\<rparr>)"
| "Close_step env AtWait kc w =
     (if wg kc = 0 then (AtSessionClose, kc, w) else (AtWait, kc, w))"
| "Close_step env AtSessionClose kc w =
     (case getConsumer kc of
        None \<Rightarrow> (Finished Panics, kc, w)
      | Some c \<Rightarrow>
          (case close_session env c w of
             (r, w1) \<Rightarrow> (Finished (Returns r), kc, w1)))"
| "Close_step env (Finished r) kc w = (Finished r, kc, w)"

text \<open>Several calls on one consumer: a schedule names, action by action, the call that
  moves next. Every interleaving of the calls is a schedule.\<close>

definition step_call ::
  "sarama \<Rightarrow> nat \<Rightarrow> close_pc list \<times> consumer \<times> world \<Rightarrow> close_pc list \<times> consumer \<times> world" where
  "step_call env i st =
     (case st of
        (ts, kc, w) \<Rightarrow>
          if i < length ts
          then (case Close_step env (ts ! i) kc w of
                  (t, kc1, w1) \<Rightarrow> (ts[i := t], kc1, w1))
          else (ts, kc, w))"

fun run_calls ::
  "sarama \<Rightarrow> nat list \<Rightarrow> close_pc list \<times> consumer \<times> world \<Rightarrow> close_pc list \<times> consumer \<times> world" where
  "run_calls env [] st = st"
| "run_calls env (i # sched) st = run_calls env sched (step_call env i st)"

text \<open>Calls made one after the other, each run to its end before the next starts.\<close>

fun Close_times ::
  "sarama \<Rightarrow> nat \<Rightarrow> consumer \<Rightarrow> world \<Rightarrow> error option outcome list \<times> consumer \<times> world" where
  "Close_times env 0 kc w = ([], kc, w)"
| "Close_times env (Suc n) kc w =
     (case Close env kc w of
        (r, kc1, w1) \<Rightarrow>
          (case Close_times env n kc1 w1 of
             (rs, kc2, w2) \<Rightarrow> (r # rs, kc2, w2)))"

text \<open>The calls of the interface \<^verbatim>\<open>Consumer\<close>, and a consumer driven through a list of
  them (a call that blocks or panics leaves the state it reached).\<close>

datatype call = CallConsume "event list" | CallClose | CallIsHealthy

fun do_call :: "sarama \<Rightarrow> call \<Rightarrow> consumer \<times> world \<Rightarrow> consumer \<times> world" where
  "do_call env (CallConsume evs) (kc, w) = snd (Consume env evs kc w)"
| "do_call env CallClose (kc, w) = snd (Close env kc w)"
| "do_call env CallIsHealthy (kc, w) = (kc, w)"

fun do_calls :: "sarama \<Rightarrow> call list \<Rightarrow> consumer \<times> world \<Rightarrow> consumer \<times> world" where
  "do_calls env [] st = st"
| "do_calls env (c # cs) st = do_calls env cs (do_call env c st)"

subsection \<open>Interleaved calls of Close: the invariant\<close>

text \<open>Used in the proofs only. Of the calls of \<^verbatim>\<open>Close\<close> on a consumer whose stored session
  is \<open>c\<close> and whose handles are \<open>pcs\<close>, the one that won the compare-and-swap is
  at a point \<open>t\<close> of its code that agrees with what the world \<open>w1\<close> has seen
  since the world \<open>w\<close> in which the calls started: the session is closed once it has
  returned and not before, and the handles it has yet to close, after those it has closed,
  are \<open>pcs\<close>.\<close>

fun winner_at ::
  "sarama \<Rightarrow> session \<Rightarrow> PartitionConsumer list \<Rightarrow> world \<Rightarrow> world \<Rightarrow> close_pc \<Rightarrow> bool" where
  "winner_at env c pcs w w1 AtCAS = False"
| "winner_at env c pcs w w1 AtLoad =
     (session_closes w1 = session_closes w \<and> async_closes w1 = async_closes w)"
| "winner_at env c pcs w w1 (AtAsyncClose ps) =
     (session_closes w1 = session_closes w \<and> async_closes w1 @ ps = async_closes w @ pcs)"
| "winner_at env c pcs w w1 AtWait =
     (session_closes w1 = session_closes w \<and> async_closes w1 = async_closes w @ pcs)"
| "winner_at env c pcs w w1 AtSessionClose =
     (session_closes w1 = session_closes w \<and> async_closes w1 = async_closes w @ pcs)"
| "winner_at env c pcs w w1 (Finished r) =
     (r = Returns (session_Close env c) \<and> session_closes w1 = session_closes w @ [c]
      \<and> async_closes w1 = async_closes w @ pcs)"

text \<open>The invariant of the interleaved calls: while the flag is clear no call has moved;
  once it is set, one call is the winner and every other call is still at its
  compare-and-swap or has returned nil.\<close>

definition Close_inv ::
  "sarama \<Rightarrow> session \<Rightarrow> consumer \<Rightarrow> world \<Rightarrow> close_pc list \<times> consumer \<times> world \<Rightarrow> bool" where
  "Close_inv env c kc w st =
     (case st of
        (ts, kc1, w1) \<Rightarrow>
          getConsumer kc1 = Some c
          \<and> getPartitionConsumers kc1 = getPartitionConsumers kc
          \<and> (if closed kc1 = 0
               then list_all (\<lambda>t. t = AtCAS) ts \<and> session_closes w1 = session_closes w
                 \<and> async_closes w1 = async_closes w
               else \<exists>i<length ts.
                      winner_at env c (getPartitionConsumers kc) w w1 (ts ! i)
                      \<and> (\<forall>j<length ts. j \<noteq> i \<longrightarrow>
                            ts ! j = AtCAS \<or> ts ! j = Finished (Returns None))))"

text \<open>An upper bound on the actions a call has left when the consumer has \<open>L\<close> handles
  and no \<^verbatim>\<open>Consume\<close> is in flight, and whether a call has returned.\<close>

fun remaining :: "nat \<Rightarrow> close_pc \<Rightarrow> nat" where
  "remaining L AtCAS = 5 + L"
| "remaining L AtLoad = 4 + L"
| "remaining L (AtAsyncClose ps) = 3 + length ps"
| "remaining L AtWait = 2"
| "remaining L AtSessionClose = 1"
| "remaining L (Finished r) = 0"

fun finished :: "close_pc \<Rightarrow> bool" where
  "finished (Finished r) = True"
| "finished t = False"

text \<open>What a call that stands at \<open>t\<close> has returned so far.\<close>

fun outcome_of :: "close_pc \<Rightarrow> error option outcome" where
  "outcome_of (Finished r) = r"
| "outcome_of t = Blocks"

subsection \<open>Example inputs\<close>

text \<open>A broker on which every call succeeds and every session has the partitions 0 and 1,
  the configuration of a consumer of topic \<^verbatim>\<open>t\<close>, and a world in which nothing has
  happened yet.\<close>

definition example_config :: sarama_Config where
  "example_config =
     \<lparr>Config_ClientID = ''sarama'', Consumer_Return_Errors = False,
      Consumer_Offsets_Initial = OffsetNewest, Producer_RequiredAcks = 1,
      Producer_Compression = 0, Producer_Flush_Frequency = 0\<rparr>"

definition healthy_broker :: sarama where
  "healthy_broker =
     \<lparr>DefaultSaramaConfig = example_config,
      NewSaramaConsumer = (\<lambda>n bs c. None),
      Partitions = (\<lambda>c t. Inr [0, 1]),
      ConsumePartition = (\<lambda>c t p off. None),
      session_Close = (\<lambda>c. None),
      NewConfig = example_config,
      NewAsyncProducer = (\<lambda>bs c. None),
      producer_Close = None\<rparr>"

definition example_cfg :: "int64 ConsumerConfigX" where
  "example_cfg =
     \<lparr>Brokers = [''b1:9092''], Topic = ''t'', ClientID = ''c1'', Offset = OffsetNewest,
      Tracing = Some True, SaramaConfig = None\<rparr>"

definition world0 :: world where
  "world0 =
     \<lparr>attempts = 0, open_sessions = [], session_closes = [], streams = [],
      async_closes = [], rebalance_success = 0, rebalance_failure = 0, warnings = []\<rparr>"

text \<open>The consumer that \<^verbatim>\<open>NewConsumer\<close> builds from \<open>example_cfg\<close> on the healthy
  broker, and the world after that.\<close>

definition example_consumer :: consumer where
  "example_consumer =
     \<lparr>cfg = example_cfg\<lparr>SaramaConfig :=
              Some (example_config\<lparr>Config_ClientID := ''c1'', Consumer_Return_Errors := True\<rparr>)\<rparr>,
      topic = ''t'', offset = OffsetNewest, tracing = True, name = [], consumer = Some 0,
      partitions = Some [0, 1], partitionConsumers = None, closed = 0,
      consumeReturned = 0, wg = 0\<rparr>"

definition world1 :: world where
  "world1 = world0\<lparr>attempts := 1, open_sessions := [0], rebalance_success := 1\<rparr>"

text \<open>Brokers that differ from the healthy one in one answer: the query for the
  partitions fails; no session can be opened; every session has the partitions 0, 1 and
  2; closing a session fails.\<close>

definition broker_without_partitions :: sarama where
  "broker_without_partitions =
     healthy_broker\<lparr>Partitions := (\<lambda>c t. Inl (SaramaError ''no partitions''))\<rparr>"

definition broker_down :: sarama where
  "broker_down = healthy_broker\<lparr>NewSaramaConsumer := (\<lambda>n bs c. Some (SaramaError ''down''))\<rparr>"

definition broker_three_partitions :: sarama where
  "broker_three_partitions = healthy_broker\<lparr>Partitions := (\<lambda>c t. Inr [0, 1, 2])\<rparr>"

definition broker_close_fails :: sarama where
  "broker_close_fails =
     healthy_broker\<lparr>session_Close := (\<lambda>c. Some (SaramaError ''close failed''))\<rparr>"

text \<open>A broker on which every session has the partitions 0, 1 and 2 and the stream of
  partition 1 cannot be opened on session 1.\<close>

definition broker_stream_fails :: sarama where
  "broker_stream_fails =
     broker_three_partitions\<lparr>ConsumePartition :=
       (\<lambda>c t p off. if c = 1 \<and> p = 1 then Some (SaramaError ''no stream'') else None)\<rparr>"

text \<open>A producer configuration that supplies a logger, and the producer that
  \<^verbatim>\<open>InitTopicAsyncProducer\<close> builds from it on the healthy broker.\<close>

definition caller_pcfg :: ProducerConfig where
  "caller_pcfg = \<lparr>ProducerConfig.Brokers = [''b1:9092''], Logger = Some (CallerLogger 1)\<rparr>"

definition example_producer :: TopicAsyncProducer where
  "example_producer =
     \<lparr>Producer = \<lparr>input = [], input_closed = False\<rparr>,
      cfg = caller_pcfg\<lparr>Logger := Some ErrorWithSentryWrapper\<rparr>,
      sc = example_config\<lparr>Producer_Flush_Frequency := 100000000\<rparr>,
      closed = 0\<rparr>"

definition empty_log :: producer_log where
  "empty_log = \<lparr>entries = [], errors_counter = 0\<rparr>"

section \<open>Properties\<close>

subsection \<open>Evaluation and frame lemmas\<close>

lemmas consumer_defs =
  NewConsumer_def Reset_def rebalance_def open_session_def close_session_def
  getConsumer_def getPartitions_def getPartitionConsumers_def Let_def

lemmas example_defs =
  example_config_def healthy_broker_def example_cfg_def world0_def example_consumer_def
  world1_def empty_log_def OffsetNewest_def OffsetOldest_def broker_without_partitions_def
  broker_down_def broker_three_partitions_def broker_close_fails_def
  broker_stream_fails_def caller_pcfg_def
  example_producer_def

lemma NewConsumer_example:
  "NewConsumer healthy_broker example_cfg world0 = (Returns (Inr example_consumer), world1)"
  by (simp add: consumer_defs example_defs)

text \<open>\<^verbatim>\<open>Reset\<close> writes the session and the assignment and nothing else of the struct.\<close>

lemma Reset_frame:
  assumes "Reset env kc w = (r, kc1, w1)"
  shows "cfg kc1 = cfg kc" and "topic kc1 = topic kc" and "offset kc1 = offset kc"
    and "tracing kc1 = tracing kc" and "partitionConsumers kc1 = partitionConsumers kc"
    and "closed kc1 = closed kc" and "consumeReturned kc1 = consumeReturned kc"
    and "wg kc1 = wg kc"
  using assms
  by (auto simp add: Reset_def rebalance_def Let_def
      split: option.splits prod.splits sum.splits)

lemma Reset_success:
  assumes "Reset env kc w = (None, kc1, w1)"
  shows "\<exists>c ps. kc1 = kc\<lparr>consumer := Some c, partitions := Some ps\<rparr>
           \<and> Partitions env c (Topic (cfg kc)) = Inr ps"
  using assms
  by (auto simp add: Reset_def rebalance_def Let_def
      split: option.splits prod.splits sum.splits)

lemma Reset_failure:
  assumes "Reset env kc w = (Some err, kc1, w1)"
  shows "kc1 = kc"
  using assms
  by (auto simp add: Reset_def rebalance_def Let_def
      split: option.splits prod.splits sum.splits)

subsection \<open>Construction\<close>

text \<open>With a nil Tracing pointer \<^verbatim>\<open>NewConsumer\<close> never returns a consumer: it returns one of
  the three validation errors or panics, and the world is as it was.\<close>

lemma NewConsumer_nil_Tracing:
  assumes "Tracing cfg0 = None"
  shows "fst (NewConsumer env cfg0 w) \<in>
      {Panics, Returns (Inl ErrClientIDEmpty), Returns (Inl ErrBrokersEmpty),
       Returns (Inl ErrTopicEmpty)}"
    and "snd (NewConsumer env cfg0 w) = w"
  using assms by (simp_all add: NewConsumer_def Let_def)

text \<open>A rebalance that opens a session and then fails to get its partitions returns the
  error, stores nothing, and leaves the new session among the open ones.\<close>

lemma rebalance_leaves_session_open:
  assumes "NewSaramaConsumer env (attempts w) (Brokers (cfg kc)) (SaramaConfig (cfg kc)) = None"
    and "Partitions env (attempts w) (Topic (cfg kc)) = Inl err"
  shows "rebalance env kc w =
      (Some err, kc,
       w\<lparr>attempts := Suc (attempts w), open_sessions := open_sessions w @ [attempts w]\<rparr>)"
  using assms by (simp add: rebalance_def open_session_def)

text \<open>
  C7. A configuration whose Tracing pointer is nil and that passes the three checks makes
  \<^verbatim>\<open>NewConsumer\<close> panic at line 125, before anything is opened: here the configuration
  brokers b1:9092, topic t, client c1, offset newest, on a broker where every call would
  succeed. No consumer with tracing enabled is produced.
\<close>

theorem NewConsumer_nil_Tracing_panics:
  "NewConsumer healthy_broker (example_cfg\<lparr>Tracing := None\<rparr>) world0 = (Panics, world0)"
  by (simp add: consumer_defs example_defs)

text \<open>
  C5. When the initial rebalance opens a session and the query for the partitions then
  fails, \<^verbatim>\<open>NewConsumer\<close> returns that error and a nil consumer, and the session it has
  opened is still open: nothing has closed it, and it is stored nowhere.
\<close>

theorem NewConsumer_leaves_session_open:
  "fst (NewConsumer broker_without_partitions
          example_cfg world0) = Returns (Inl (SaramaError ''no partitions''))
   \<and> open_sessions (snd (NewConsumer
          broker_without_partitions
          example_cfg world0)) = [0]
   \<and> session_closes (snd (NewConsumer
          broker_without_partitions
          example_cfg world0)) = []"
  by (simp add: consumer_defs example_defs)




text \<open>
  C8, as the claim states it, fails on the consumer: with an empty broker list and an empty
  client identifier (in the configuration and in the sarama configuration it carries),
  \<^verbatim>\<open>NewConsumer\<close> returns \<^verbatim>\<open>ErrClientIDEmpty\<close>, not \<^verbatim>\<open>ErrBrokersEmpty\<close>.
\<close>

theorem NewConsumer_checks_ClientID_first:
  "NewConsumer healthy_broker
     (example_cfg\<lparr>Brokers := [], ClientID := [],
                  SaramaConfig := Some (example_config\<lparr>Config_ClientID := []\<rparr>)\<rparr>) world0 =
   (Returns (Inl ErrClientIDEmpty), world0)"
  by (simp add: consumer_defs example_defs)

text \<open>
  C8, amended. For a producer configuration with an empty broker list,
  \<^verbatim>\<open>InitTopicAsyncProducer\<close> returns \<^verbatim>\<open>ErrBrokersEmpty\<close> and a nil producer, whatever the
  Logger. For a consumer configuration with an empty broker list, \<^verbatim>\<open>NewConsumer\<close>
  returns a nil consumer and an error and leaves the world as it was; the error is
  \<^verbatim>\<open>ErrBrokersEmpty\<close> when the effective client identifier is non-empty (the ClientID of
  the configuration, or else the one of the supplied or default sarama configuration), and
  \<^verbatim>\<open>ErrClientIDEmpty\<close> when it is empty, since that check comes first.
\<close>

theorem empty_brokers:
  "(ProducerConfig.Brokers pcfg = [] \<longrightarrow> InitTopicAsyncProducer env pcfg = Inl ErrBrokersEmpty)
   \<and> (Brokers cfg0 = [] \<longrightarrow>
        NewConsumer env cfg0 w =
          (Returns (Inl (if ClientID cfg0 = []
                           \<and> Config_ClientID (case SaramaConfig cfg0 of
                                                None \<Rightarrow> DefaultSaramaConfig env
                                              | Some c \<Rightarrow> c) = []
                         then ErrClientIDEmpty else ErrBrokersEmpty)), w))"
  by (simp add: InitTopicAsyncProducer_def NewConsumer_def Let_def)

theorem empty_brokers_witness:
  "InitTopicAsyncProducer healthy_broker
     \<lparr>ProducerConfig.Brokers = [], Logger = Some (CallerLogger 1)\<rparr> = Inl ErrBrokersEmpty
   \<and> NewConsumer healthy_broker (example_cfg\<lparr>Brokers := []\<rparr>) world0 =
       (Returns (Inl ErrBrokersEmpty), world0)"
  using empty_brokers [of "\<lparr>ProducerConfig.Brokers = [], Logger = Some (CallerLogger 1)\<rparr>"
      healthy_broker "example_cfg\<lparr>Brokers := []\<rparr>" world0]
  by (simp add: example_defs)

subsection \<open>The producer\<close>

lemma Publish_closed:
  "TopicAsyncProducer.closed tp \<noteq> 0 \<Longrightarrow>
   Publish_all tp ms l =
     (Returns (), tp,
      l\<lparr>entries := entries l @
           map (\<lambda>m. (Logger (TopicAsyncProducer.cfg tp),
                      ''kafkabp.TopicAsyncProducer: Publish called after Close is called'')) ms\<rparr>)"
  by (induction ms arbitrary: l) (simp_all add: Publish_def)

text \<open>Without the flag, a send on the input channel that \<^verbatim>\<open>Close\<close> has closed panics.\<close>

lemma Publish_on_closed_input:
  "TopicAsyncProducer.closed tp = 0 \<Longrightarrow> input_closed (Producer tp) \<Longrightarrow>
   fst (Publish tp msg l) = Panics"
  by (simp add: Publish_def send_input_def Let_def)

text \<open>
  C9. On a producer on which \<^verbatim>\<open>Close\<close> has run, every run of \<^verbatim>\<open>Publish\<close> calls returns (no
  call panics or blocks), leaves the producer as it was, so that no message reaches the
  input channel, and adds to the log one warning per call and nothing else.
\<close>

theorem Publish_after_Close:
  "Publish_all (snd (TopicAsyncProducer_Close env tp)) ms l =
     (Returns (), snd (TopicAsyncProducer_Close env tp),
      l\<lparr>entries := entries l @
           map (\<lambda>m. (Logger (TopicAsyncProducer.cfg tp),
                      ''kafkabp.TopicAsyncProducer: Publish called after Close is called'')) ms\<rparr>)
   \<and> input (Producer (fst (snd (Publish_all (snd (TopicAsyncProducer_Close env tp)) ms l)))) =
       input (Producer tp)"
proof -
  have c: "TopicAsyncProducer.closed (snd (TopicAsyncProducer_Close env tp)) \<noteq> 0"
    by (simp add: TopicAsyncProducer_Close_def)
  have g: "TopicAsyncProducer.cfg (snd (TopicAsyncProducer_Close env tp)) =
      TopicAsyncProducer.cfg tp"
    by (simp add: TopicAsyncProducer_Close_def)
  have i: "input (Producer (snd (TopicAsyncProducer_Close env tp))) = input (Producer tp)"
    by (simp add: TopicAsyncProducer_Close_def)
  from Publish_closed [OF c, of ms l] g i show ?thesis
    by simp
qed

text \<open>Whatever Logger the configuration supplies, the producer and the goroutine get the
  package default.\<close>

lemma InitTopicAsyncProducer_Logger:
  assumes "InitTopicAsyncProducer env pcfg = Inr (tp, c)"
  shows "Logger c = Some ErrorWithSentryWrapper"
    and "Logger (TopicAsyncProducer.cfg tp) = Some ErrorWithSentryWrapper"
    and "TopicAsyncProducer.closed tp = 0"
  using assms
  by (auto simp add: InitTopicAsyncProducer_def ProducerConfig_NewSaramaConfig_def Let_def
      split: if_splits option.splits)

text \<open>
  C10. A producer built from a configuration that supplies the logger
  \<open>CallerLogger 1\<close> logs an asynchronous publish error with the package default
  \<^verbatim>\<open>log.ErrorWithSentryWrapper()\<close>: line 65 overwrites the Logger of the configuration
  before the goroutine captures it, and the producer keeps the overwritten one as well.
\<close>

theorem InitTopicAsyncProducer_overrides_Logger:
  "InitTopicAsyncProducer healthy_broker caller_pcfg =
     Inr (example_producer, caller_pcfg\<lparr>Logger := Some ErrorWithSentryWrapper\<rparr>)
   \<and> entries (drain_errors (caller_pcfg\<lparr>Logger := Some ErrorWithSentryWrapper\<rparr>) [''e1'']
        empty_log) = [(Some ErrorWithSentryWrapper, ''e1'')]
   \<and> Logger caller_pcfg = Some (CallerLogger 1)"
  by (simp add: InitTopicAsyncProducer_def ProducerConfig_NewSaramaConfig_def example_defs
      Let_def)

subsection \<open>The consume loop\<close>



lemma loop_frame:
  "consumeReturned (fst (snd (Consume_loop env evs kc w))) = consumeReturned kc
   \<and> wg (fst (snd (Consume_loop env evs kc w))) = wg kc"
  "consumeReturned (fst (snd (wg_Wait env evs kc w))) = consumeReturned kc
   \<and> wg (fst (snd (wg_Wait env evs kc w))) = wg kc"
proof (induction env evs kc w and env evs kc w rule: Consume_loop_wg_Wait.induct)
  case (1 env evs kc w)
  then show ?case
    by (auto split: prod.splits outcome.splits sum.splits)
next
  case (2 env kc w)
  then show ?case by simp
next
  case (3 env evs kc w)
  then show ?case by simp
next
  case (4 env evs kc w)
  show ?case
  proof (cases "closed kc \<noteq> 0")
    case True
    then show ?thesis by simp
  next
    case False
    obtain r kc1 w1 where R: "Reset env kc w = (r, kc1, w1)"
      by (metis prod_cases3)
    show ?thesis
    proof (cases r)
      case None
      with 4 False R have
        "consumeReturned (fst (snd (Consume_loop env evs kc1 w1))) = consumeReturned kc1
         \<and> wg (fst (snd (Consume_loop env evs kc1 w1))) = wg kc1"
        by simp
      with None False R Reset_frame(7,8) [OF R] show ?thesis by simp
    next
      case (Some err)
      with False R Reset_frame(7,8) [OF R] show ?thesis by simp
    qed
  qed
qed


lemma NewConsumer_healthy:
  assumes "fst (NewConsumer env cfg0 w) = Returns (Inr kc)"
  shows "consumeReturned kc = 0" and "closed kc = 0" and "wg kc = 0"
    and "getConsumer kc \<noteq> None"
proof -
  from assms obtain kc0 w1 where
    r: "Reset env kc0 w = (None, kc, w1)" and
    z: "consumeReturned kc0 = 0" "closed kc0 = 0" "wg kc0 = 0"
    by (auto simp add: NewConsumer_def Let_def split: if_splits option.splits prod.splits)
  from Reset_frame(6,7,8) [OF r] z
  show "consumeReturned kc = 0" and "closed kc = 0" and "wg kc = 0"
    by simp_all
  from Reset_success [OF r] show "getConsumer kc \<noteq> None"
    by (auto simp add: getConsumer_def)
qed

lemma Close_frame:
  "consumeReturned (fst (snd (Close env kc w))) = consumeReturned kc"
  by (simp add: Close_def Let_def split: option.splits prod.splits)

lemma Consume_Blocks:
  assumes "fst (Consume env evs kc w) = Blocks"
  shows "consumeReturned (fst (snd (Consume env evs kc w))) = consumeReturned kc"
  using assms loop_frame(1) [of env evs "kc\<lparr>wg := wg kc + 1\<rparr>" w]
  by (auto simp add: Consume_def Consume_deferred_def split: prod.splits outcome.splits)

lemma Consume_returned:
  assumes "fst (Consume env evs kc w) \<noteq> Blocks"
  shows "consumeReturned (fst (snd (Consume env evs kc w))) = 1"
  using assms
  by (auto simp add: Consume_def Consume_deferred_def split: prod.splits outcome.splits)

lemma do_call_unhealthy:
  assumes "\<not> IsHealthy (fst st)"
  shows "\<not> IsHealthy (fst (do_call env c st))"
proof (cases st)
  case (Pair kc w)
  show ?thesis
  proof (cases c)
    case (CallConsume evs)
    show ?thesis
    proof (cases "fst (Consume env evs kc w) = Blocks")
      case True
      from Consume_Blocks [OF True] assms Pair CallConsume show ?thesis
        by (simp add: IsHealthy_def)
    next
      case False
      from Consume_returned [OF False] Pair CallConsume show ?thesis
        by (simp add: IsHealthy_def)
    qed
  next
    case CallClose
    with assms Pair Close_frame [of env kc w] show ?thesis
      by (simp add: IsHealthy_def)
  next
    case CallIsHealthy
    with assms Pair show ?thesis by simp
  qed
qed

lemma do_calls_unhealthy:
  "\<not> IsHealthy (fst st) \<Longrightarrow> \<not> IsHealthy (fst (do_calls env cs st))"
  by (induction cs arbitrary: st) (simp_all add: do_call_unhealthy)

lemma do_calls_healthy:
  "IsHealthy (fst st) \<Longrightarrow> list_all (\<lambda>c. c = CallClose \<or> c = CallIsHealthy) cs \<Longrightarrow>
   IsHealthy (fst (do_calls env cs st))"
proof (induction cs arbitrary: st)
  case Nil
  then show ?case by simp
next
  case (Cons c cs)
  obtain kc w where st: "st = (kc, w)" by (cases st)
  from Cons.prems st Close_frame [of env kc w] have "IsHealthy (fst (do_call env c st))"
    by (auto simp add: IsHealthy_def)
  with Cons show ?case by simp
qed

text \<open>
  C3. A consumer that \<^verbatim>\<open>NewConsumer\<close> returns is healthy. A healthy consumer stays healthy
  through calls of \<^verbatim>\<open>Close\<close> and \<^verbatim>\<open>IsHealthy\<close>, and while a \<^verbatim>\<open>Consume\<close> on it has not
  returned. When \<^verbatim>\<open>Consume\<close> ends, by returning nil, by returning an error or by a panic,
  the consumer is unhealthy, and it stays unhealthy through every later call of the
  interface.
\<close>

theorem IsHealthy_until_Consume_returns:
  "(fst (NewConsumer env cfg0 w0) = Returns (Inr kc0) \<longrightarrow> IsHealthy kc0)
   \<and> (IsHealthy kc \<longrightarrow> list_all (\<lambda>c. c = CallClose \<or> c = CallIsHealthy) cs0 \<longrightarrow>
        IsHealthy (fst (do_calls env cs0 (kc, w))))
   \<and> (IsHealthy kc \<longrightarrow> fst (Consume env evs kc w) = Blocks \<longrightarrow>
        IsHealthy (fst (snd (Consume env evs kc w))))
   \<and> (fst (Consume env evs kc w) \<noteq> Blocks \<longrightarrow>
        \<not> IsHealthy (fst (snd (Consume env evs kc w)))
        \<and> \<not> IsHealthy (fst (do_calls env cs (snd (Consume env evs kc w)))))"
proof (intro conjI impI)
  assume "fst (NewConsumer env cfg0 w0) = Returns (Inr kc0)"
  from NewConsumer_healthy(1) [OF this] show "IsHealthy kc0"
    by (simp add: IsHealthy_def)
next
  assume "IsHealthy kc" and "list_all (\<lambda>c. c = CallClose \<or> c = CallIsHealthy) cs0"
  then show "IsHealthy (fst (do_calls env cs0 (kc, w)))"
    using do_calls_healthy [of "(kc, w)" cs0 env] by simp
next
  assume "IsHealthy kc" and "fst (Consume env evs kc w) = Blocks"
  then show "IsHealthy (fst (snd (Consume env evs kc w)))"
    using Consume_Blocks [of env evs kc w] by (simp add: IsHealthy_def)
next
  assume r: "fst (Consume env evs kc w) \<noteq> Blocks"
  from Consume_returned [OF r] show u: "\<not> IsHealthy (fst (snd (Consume env evs kc w)))"
    by (simp add: IsHealthy_def)
  then show "\<not> IsHealthy (fst (do_calls env cs (snd (Consume env evs kc w))))"
    by (rule do_calls_unhealthy)
qed

lemmas run_defs =
  Consume_def Consume_deferred_def Close_def IsHealthy_def consumer_defs example_defs

theorem IsHealthy_until_Consume_returns_witness:
  "IsHealthy example_consumer
   \<and> IsHealthy (fst (do_calls healthy_broker [CallIsHealthy, CallClose] (example_consumer, world1)))
   \<and> IsHealthy (fst (snd (Consume healthy_broker [WaitReturns] example_consumer world1)))
   \<and> fst (Consume healthy_broker [CloseCAS, WaitReturns] example_consumer world1) = Returns None
   \<and> \<not> IsHealthy (fst (snd (Consume healthy_broker [CloseCAS, WaitReturns] example_consumer world1)))
   \<and> \<not> IsHealthy (fst (do_calls healthy_broker [CallClose, CallIsHealthy]
          (snd (Consume healthy_broker [CloseCAS, WaitReturns] example_consumer world1))))
   \<and> fst (Consume broker_down
          [WaitReturns] example_consumer world1) = Returns (Some (SaramaError ''down''))
   \<and> \<not> IsHealthy (fst (snd (Consume
          broker_down
          [WaitReturns] example_consumer world1)))"
  using IsHealthy_until_Consume_returns [of healthy_broker example_cfg world0 example_consumer
      example_consumer "[CallIsHealthy, CallClose]" world1 "[WaitReturns]"]
    IsHealthy_until_Consume_returns [of healthy_broker example_cfg world0 example_consumer
      example_consumer "[]" world1 "[CloseCAS, WaitReturns]" "[CallClose, CallIsHealthy]"]
    IsHealthy_until_Consume_returns
      [of broker_down
        example_cfg world0 example_consumer example_consumer "[]" world1 "[WaitReturns]" "[]"]
  by (simp add: NewConsumer_example) (simp add: run_defs)














subsection \<open>The three atomic fields\<close>

text \<open>
  C4, as the claim states it, fails: while \<^verbatim>\<open>Reset\<close> moves a consumer from session 0 with
  the partitions 0 and 1 to session 1 with the partitions 0, 1 and 2, a reader can see
  session 1 together with the assignment of session 0.
\<close>

theorem Reset_publishes_session_before_assignment:
  "getConsumer example_consumer = Some 0 \<and> getPartitions example_consumer = [0, 1]
   \<and> getConsumer (Reset_snapshots broker_three_partitions example_consumer world1 ! 1) = Some 1
   \<and> getPartitions (Reset_snapshots broker_three_partitions example_consumer world1 ! 1) = [0, 1]
   \<and> getConsumer (Reset_snapshots broker_three_partitions example_consumer world1 ! 2) = Some 1
   \<and> getPartitions (Reset_snapshots broker_three_partitions example_consumer world1 ! 2) =
       [0, 1, 2]"
  by (simp add: Reset_snapshots_def run_defs)

lemma Reset_attempts:
  "attempts (case getConsumer kc of
        None \<Rightarrow> w
      | Some c \<Rightarrow> (case close_session env c w of
                    (Some err, w') \<Rightarrow> w'\<lparr>warnings := warnings w' @ [err]\<rparr>
                  | (None, w') \<Rightarrow> w')) = attempts w"
  "attempts (case getConsumer kc of None \<Rightarrow> w | Some c \<Rightarrow> snd (close_session env c w)) =
     attempts w"
  by (simp_all add: close_session_def split: option.splits)

lemma open_session_cases:
  "open_session env bs scfg w =
     (case NewSaramaConsumer env (attempts w) bs scfg of
        Some err \<Rightarrow> (Inl err, w\<lparr>attempts := Suc (attempts w)\<rparr>)
      | None \<Rightarrow> (Inr (attempts w),
                 w\<lparr>attempts := Suc (attempts w),
                   open_sessions := open_sessions w @ [attempts w]\<rparr>))"
  by (simp add: open_session_def)

text \<open>
  C4, amended. The session, the assignment and the worker handles are three atomic values,
  each replaced by a Store of its own. A \<^verbatim>\<open>Reset\<close> that succeeds stores the session, then
  the assignment, and writes nothing else: a reader sees the struct as it was, then with
  the new session and the old assignment, then with both new; the handles are the old
  ones throughout (the consume loop stores new ones later, at line 227). A \<^verbatim>\<open>Reset\<close> that
  fails stores nothing.
\<close>

theorem Reset_stores_one_field_at_a_time:
  "(Reset env kc w = (None, kc1, w1) \<longrightarrow>
      Reset_snapshots env kc w = [kc, kc\<lparr>consumer := consumer kc1\<rparr>, kc1]
      \<and> kc1 = kc\<lparr>consumer := consumer kc1, partitions := partitions kc1\<rparr>
      \<and> partitionConsumers kc1 = partitionConsumers kc)
   \<and> (Reset env kc w = (Some err, kc1, w1) \<longrightarrow>
        Reset_snapshots env kc w = [kc] \<and> kc1 = kc)"
proof -
  let ?r = "NewSaramaConsumer env (attempts w) (Brokers (cfg kc)) (SaramaConfig (cfg kc))"
  let ?p = "Partitions env (attempts w) (Topic (cfg kc))"
  show ?thesis
  proof (cases ?r)
    case (Some e)
    then show ?thesis
      by (auto simp add: Reset_def Reset_snapshots_def rebalance_def open_session_cases Reset_attempts Let_def)
  next
    case None
    show ?thesis
    proof (cases ?p)
      case (Inl e)
      with None show ?thesis
        by (auto simp add: Reset_def Reset_snapshots_def rebalance_def open_session_cases Reset_attempts Let_def)
    next
      case (Inr ps)
      with None show ?thesis
        by (auto simp add: Reset_def Reset_snapshots_def rebalance_def open_session_cases Reset_attempts Let_def)
    qed
  qed
qed

theorem Reset_stores_one_field_at_a_time_witness:
  "Reset_snapshots broker_three_partitions
     example_consumer world1 =
     [example_consumer, example_consumer\<lparr>consumer := Some 1\<rparr>,
      example_consumer\<lparr>consumer := Some 1, partitions := Some [0, 1, 2]\<rparr>]
   \<and> Reset_snapshots broker_without_partitions
       example_consumer world1 = [example_consumer]"
proof -
  let ?e1 = broker_three_partitions
  let ?e2 = broker_without_partitions
  have r1: "Reset ?e1 example_consumer world1 =
      (None, example_consumer\<lparr>consumer := Some 1, partitions := Some [0, 1, 2]\<rparr>,
       world1\<lparr>attempts := 2, open_sessions := [1], session_closes := [0],
              rebalance_success := 2\<rparr>)"
    by (simp add: run_defs)
  have r2: "Reset ?e2 example_consumer world1 =
      (Some (SaramaError ''no partitions''), example_consumer,
       world1\<lparr>attempts := 2, open_sessions := [1], session_closes := [0],
              rebalance_failure := 1\<rparr>)"
    by (simp add: run_defs)
  from Reset_stores_one_field_at_a_time [of ?e1 example_consumer world1] r1
    Reset_stores_one_field_at_a_time [of ?e2 example_consumer world1] r2
  show ?thesis
    by simp
qed

subsection \<open>Close\<close>

lemma Close_step_frame:
  assumes "Close_step env t kc w = (t1, kc1, w1)"
  shows "getConsumer kc1 = getConsumer kc"
    and "getPartitionConsumers kc1 = getPartitionConsumers kc"
    and "wg kc1 = wg kc"
    and "closed kc \<noteq> 0 \<Longrightarrow> kc1 = kc"
  using assms
  by (induction env t kc w rule: Close_step.induct)
    (auto simp add: getConsumer_def getPartitionConsumers_def
      split: if_splits option.splits prod.splits)

lemma loser_step:
  assumes "closed kc \<noteq> 0" and "t = AtCAS \<or> t = Finished (Returns None)"
  shows "Close_step env t kc w = (Finished (Returns None), kc, w)"
  using assms by auto

lemma winner_step:
  assumes "winner_at env c pcs w w1 t" and "getConsumer kc1 = Some c"
    and "getPartitionConsumers kc1 = pcs" and "Close_step env t kc1 w1 = (t2, kc2, w2)"
  shows "winner_at env c pcs w w2 t2"
  using assms
  by (induction env t kc1 w1 rule: Close_step.induct)
    (auto simp add: close_session_def split: if_splits)

lemma first_step:
  assumes "closed kc1 = 0" and "Close_step env AtCAS kc1 w1 = (t2, kc2, w2)"
  shows "t2 = AtLoad \<and> closed kc2 \<noteq> 0 \<and> w2 = w1"
  using assms by auto

lemma Close_invI:
  assumes "getConsumer kc1 = Some c"
    and "getPartitionConsumers kc1 = getPartitionConsumers kc"
    and "closed kc1 \<noteq> 0" and "i < length ts"
    and "winner_at env c (getPartitionConsumers kc) w w1 (ts ! i)"
    and "\<forall>j<length ts. j \<noteq> i \<longrightarrow> ts ! j = AtCAS \<or> ts ! j = Finished (Returns None)"
  shows "Close_inv env c kc w (ts, kc1, w1)"
  unfolding Close_inv_def using assms by auto

lemma Close_inv_step:
  assumes inv: "Close_inv env c kc w st"
  shows "Close_inv env c kc w (step_call env i st)"
proof -
  obtain ts kc1 w1 where st: "st = (ts, kc1, w1)"
    by (cases st) auto
  show ?thesis
  proof (cases "i < length ts")
    case False
    with inv st show ?thesis by (simp add: step_call_def)
  next
    case i: True
    obtain t2 kc2 w2 where s: "Close_step env (ts ! i) kc1 w1 = (t2, kc2, w2)"
      by (cases "Close_step env (ts ! i) kc1 w1") auto
    from i s st have sc: "step_call env i st = (ts[i := t2], kc2, w2)"
      by (simp add: step_call_def)
    from inv st have c1: "getConsumer kc1 = Some c"
      and p1: "getPartitionConsumers kc1 = getPartitionConsumers kc"
      by (simp_all add: Close_inv_def)
    from Close_step_frame(1,2) [OF s] c1 p1 have c2: "getConsumer kc2 = Some c"
      and p2: "getPartitionConsumers kc2 = getPartitionConsumers kc"
      by simp_all
    show ?thesis
    proof (cases "closed kc1 = 0")
      case True
      with inv st have a: "list_all (\<lambda>t. t = AtCAS) ts"
        and w: "session_closes w1 = session_closes w" "async_closes w1 = async_closes w"
        by (simp_all add: Close_inv_def)
      from a i have "ts ! i = AtCAS"
        by (simp add: list_all_length)
      with s True have f: "t2 = AtLoad" "closed kc2 \<noteq> 0" "w2 = w1"
        by auto
      have "winner_at env c (getPartitionConsumers kc) w w2 (ts[i := t2] ! i)"
        using f w i by simp
      moreover have "\<forall>j<length (ts[i := t2]). j \<noteq> i \<longrightarrow>
          ts[i := t2] ! j = AtCAS \<or> ts[i := t2] ! j = Finished (Returns None)"
        using a by (simp add: list_all_length)
      ultimately show ?thesis
        using sc Close_invI [OF c2 p2 f(2), of i "ts[i := t2]" env w w2] i by simp
    next
      case False
      with inv st obtain i0 where i0: "i0 < length ts"
        and wi: "winner_at env c (getPartitionConsumers kc) w w1 (ts ! i0)"
        and ot: "\<forall>j<length ts. j \<noteq> i0 \<longrightarrow> ts ! j = AtCAS \<or> ts ! j = Finished (Returns None)"
        by (auto simp add: Close_inv_def)
      from Close_step_frame(4) [OF s False] have k: "kc2 = kc1" .
      show ?thesis
      proof (cases "i = i0")
        case True
        from winner_step [OF wi c1 p1] s True
        have "winner_at env c (getPartitionConsumers kc) w w2 t2"
          by simp
        with True i0 have "winner_at env c (getPartitionConsumers kc) w w2 (ts[i := t2] ! i0)"
          by simp
        moreover from ot True have "\<forall>j<length (ts[i := t2]). j \<noteq> i0 \<longrightarrow>
            ts[i := t2] ! j = AtCAS \<or> ts[i := t2] ! j = Finished (Returns None)"
          by simp
        ultimately show ?thesis
          using sc Close_invI [OF c2 p2, of i0 "ts[i := t2]" env w w2] k False i0 by simp
      next
        case ne: False
        from ot i ne have "ts ! i = AtCAS \<or> ts ! i = Finished (Returns None)"
          by simp
        from loser_step [OF False this, of env w1] s
        have l: "t2 = Finished (Returns None)" "w2 = w1"
          by simp_all
        from wi ne l have "winner_at env c (getPartitionConsumers kc) w w2 (ts[i := t2] ! i0)"
          by simp
        moreover from ot l i have "\<forall>j<length (ts[i := t2]). j \<noteq> i0 \<longrightarrow>
            ts[i := t2] ! j = AtCAS \<or> ts[i := t2] ! j = Finished (Returns None)"
          by (auto simp add: nth_list_update)
        ultimately show ?thesis
          using sc Close_invI [OF c2 p2, of i0 "ts[i := t2]" env w w2] k False i0 by simp
      qed
    qed
  qed
qed

lemma Close_inv_run:
  "Close_inv env c kc w st \<Longrightarrow> Close_inv env c kc w (run_calls env sched st)"
  by (induction sched arbitrary: st) (simp_all add: Close_inv_step)

lemma Close_inv_init:
  assumes "closed kc = 0" and "getConsumer kc = Some c"
  shows "Close_inv env c kc w (replicate n AtCAS, kc, w)"
  using assms by (simp add: Close_inv_def list_all_length)

lemma step_call_length:
  "length (fst (step_call env i st)) = length (fst st)"
  by (cases st) (simp add: step_call_def split: prod.splits)

lemma run_calls_length:
  "length (fst (run_calls env sched st)) = length (fst st)"
  by (induction sched arbitrary: st) (simp_all add: step_call_length)

lemma Close_step_progress:
  assumes "wg kc = 0" and "Close_step env t kc w = (t1, kc1, w1)"
  shows "remaining (length (getPartitionConsumers kc)) t1
     \<le> remaining (length (getPartitionConsumers kc)) t - 1"
  using assms
  by (induction env t kc w rule: Close_step.induct)
    (auto split: if_splits option.splits prod.splits)

lemma step_call_progress:
  assumes "wg kc = 0" and "i < length ts" and "step_call env a (ts, kc, w) = (ts1, kc1, w1)"
  shows "length ts1 = length ts" and "wg kc1 = 0"
    and "getPartitionConsumers kc1 = getPartitionConsumers kc"
    and "remaining (length (getPartitionConsumers kc)) (ts1 ! i)
      \<le> remaining (length (getPartitionConsumers kc)) (ts ! i) - (if a = i then 1 else 0)"
proof -
  show "length ts1 = length ts"
    using step_call_length [of env a "(ts, kc, w)"] assms(3) by simp
  have "wg kc1 = 0 \<and> getPartitionConsumers kc1 = getPartitionConsumers kc
    \<and> remaining (length (getPartitionConsumers kc)) (ts1 ! i)
      \<le> remaining (length (getPartitionConsumers kc)) (ts ! i) - (if a = i then 1 else 0)"
  proof (cases "a < length ts")
    case False
    with assms show ?thesis
      by (auto simp add: step_call_def)
  next
    case True
    obtain t2 kc2 w2 where s: "Close_step env (ts ! a) kc w = (t2, kc2, w2)"
      by (cases "Close_step env (ts ! a) kc w") auto
    with True assms(3) have e: "ts1 = ts[a := t2]" "kc1 = kc2" "w1 = w2"
      by (simp_all add: step_call_def)
    from Close_step_frame(2,3) [OF s] e assms(1)
    have "wg kc1 = 0" and "getPartitionConsumers kc1 = getPartitionConsumers kc"
      by simp_all
    moreover from Close_step_progress [OF assms(1) s] e assms(2) True
    have "remaining (length (getPartitionConsumers kc)) (ts1 ! i)
        \<le> remaining (length (getPartitionConsumers kc)) (ts ! i) - (if a = i then 1 else 0)"
      by (auto simp add: nth_list_update)
    ultimately show ?thesis by simp
  qed
  then show "wg kc1 = 0" and "getPartitionConsumers kc1 = getPartitionConsumers kc"
    and "remaining (length (getPartitionConsumers kc)) (ts1 ! i)
      \<le> remaining (length (getPartitionConsumers kc)) (ts ! i) - (if a = i then 1 else 0)"
    by simp_all
qed

lemma run_calls_progress:
  "wg kc = 0 \<Longrightarrow> i < length ts \<Longrightarrow>
   remaining (length (getPartitionConsumers kc)) (fst (run_calls env sched (ts, kc, w)) ! i)
     \<le> remaining (length (getPartitionConsumers kc)) (ts ! i) - count_list sched i"
proof (induction sched arbitrary: ts kc w)
  case Nil
  then show ?case by simp
next
  case (Cons a sched)
  obtain ts1 kc1 w1 where s: "step_call env a (ts, kc, w) = (ts1, kc1, w1)"
    by (cases "step_call env a (ts, kc, w)") auto
  note p = step_call_progress [OF Cons.prems s]
  from Cons.IH [of kc1 ts1 w1] p Cons.prems
  have "remaining (length (getPartitionConsumers kc)) (fst (run_calls env sched (ts1, kc1, w1)) ! i)
     \<le> remaining (length (getPartitionConsumers kc)) (ts1 ! i) - count_list sched i"
    by simp
  with p(4) s show ?case
    by (auto split: if_splits)
qed

lemma remaining_0:
  "remaining L t = 0 \<Longrightarrow> finished t"
  by (cases t) simp_all

lemma winner_at_closes:
  "winner_at env c pcs w w1 t \<Longrightarrow>
   session_closes w1 = session_closes w \<or> session_closes w1 = session_closes w @ [c]"
  by (cases t) auto

lemma winner_at_returns:
  "winner_at env c pcs w w1 (Finished r) \<Longrightarrow> r = Returns (session_Close env c)"
  by simp

lemma filter_le_one:
  "\<forall>j<length xs. j \<noteq> i \<longrightarrow> \<not> P (xs ! j) \<Longrightarrow> length (filter P xs) \<le> 1"
proof (induction xs arbitrary: i)
  case Nil
  then show ?case by simp
next
  case (Cons x xs)
  show ?case
  proof (cases i)
    case 0
    with Cons.prems have "\<forall>j<length xs. \<not> P (xs ! j)"
      by auto
    then have "filter P xs = []"
      by (auto simp add: filter_empty_conv in_set_conv_nth)
    then show ?thesis by simp
  next
    case (Suc k)
    with Cons.prems have "\<not> P x"
      by auto
    moreover from Cons.prems Suc have "\<forall>j<length xs. j \<noteq> k \<longrightarrow> \<not> P (xs ! j)"
      by auto
    ultimately show ?thesis
      using Cons.IH [of k] by simp
  qed
qed

lemma run_calls_append:
  "run_calls env (s1 @ s2) st = run_calls env s2 (run_calls env s1 st)"
  by (induction s1 arbitrary: st) simp_all

lemma run_calls_Finished:
  "run_calls env sched ([Finished r], kc, w) = ([Finished r], kc, w)"
  by (induction sched) (simp_all add: step_call_def)

lemma run_calls_AsyncClose:
  "run_calls env (replicate (length ps) 0) ([AtAsyncClose ps], kc, w) =
     ([AtAsyncClose []], kc, w\<lparr>async_closes := async_closes w @ ps\<rparr>)"
  by (induction ps arbitrary: w) (simp_all add: step_call_def)

text \<open>The call cut into actions is the call: one call that takes all its actions, with
  nothing in between, ends as \<open>Close\<close> does.\<close>

lemma Close_by_steps:
  "(case run_calls env (0 # 0 # replicate (length (getPartitionConsumers kc)) 0 @ [0, 0, 0])
           ([AtCAS], kc, w) of
      (ts, kc1, w1) \<Rightarrow> (outcome_of (hd ts), kc1, w1)) = Close env kc w"
proof (cases "closed kc = 0")
  case False
  then have "step_call env 0 ([AtCAS], kc, w) = ([Finished (Returns None)], kc, w)"
    by (simp add: step_call_def)
  with False show ?thesis
    by (simp add: Close_def run_calls_Finished)
next
  case True
  let ?kc = "kc\<lparr>closed := 1\<rparr>"
  let ?pcs = "getPartitionConsumers kc"
  let ?w = "w\<lparr>async_closes := async_closes w @ ?pcs\<rparr>"
  have p: "getPartitionConsumers ?kc = ?pcs"
    by (simp add: getPartitionConsumers_def)
  from True have 1: "run_calls env [0, 0] ([AtCAS], kc, w) = ([AtAsyncClose ?pcs], ?kc, w)"
    by (simp add: step_call_def p)
  have 2: "run_calls env (replicate (length ?pcs) 0) ([AtAsyncClose ?pcs], ?kc, w) =
      ([AtAsyncClose []], ?kc, ?w)"
    by (rule run_calls_AsyncClose)
  have 3: "(case run_calls env [0, 0, 0] ([AtAsyncClose []], ?kc, ?w) of
      (ts, kc1, w1) \<Rightarrow> (outcome_of (hd ts), kc1, w1)) = Close env kc w"
    using True
    by (simp add: step_call_def Close_def Let_def p getConsumer_def close_session_def
        split: option.splits)
  have "run_calls env (0 # 0 # replicate (length ?pcs) 0 @ [0, 0, 0]) ([AtCAS], kc, w) =
      run_calls env [0, 0, 0] (run_calls env (replicate (length ?pcs) 0)
        (run_calls env [0, 0] ([AtCAS], kc, w)))"
    using run_calls_append [of env "[0, 0]" "replicate (length ?pcs) 0 @ [0, 0, 0]"]
      run_calls_append [of env "replicate (length ?pcs) 0" "[0, 0, 0]"]
    by simp
  with 1 2 3 show ?thesis
    by simp
qed

text \<open>
  C2, as the claim states it, fails: when closing the session fails, the first of two calls
  returns that error and the second returns nil.
\<close>

theorem Close_outcomes_differ:
  "fst (Close_times broker_close_fails
          2 example_consumer world1) =
   [Returns (Some (SaramaError ''close failed'')), Returns None]"
  by (simp add: run_defs numeral_2_eq_2)

lemma Close_times_closed:
  "closed kc \<noteq> 0 \<Longrightarrow> Close_times env m kc w = (replicate m (Returns None), kc, w)"
  by (induction m) (simp_all add: Close_def)

lemma Close_first:
  assumes "closed kc = 0" and "wg kc = 0" and "getConsumer kc = Some c"
  shows "Close env kc w =
     (Returns (session_Close env c), kc\<lparr>closed := 1\<rparr>,
      snd (close_session env c (w\<lparr>async_closes := async_closes w @ getPartitionConsumers kc\<rparr>)))"
  using assms
  by (simp add: Close_def Let_def getConsumer_def getPartitionConsumers_def close_session_def)

lemma Close_times_first:
  assumes "closed kc = 0" and "wg kc = 0" and "getConsumer kc = Some c"
  shows "fst (Close_times env (Suc m) kc w) =
       Returns (session_Close env c) # replicate m (Returns None)"
    and "session_closes (snd (snd (Close_times env (Suc m) kc w))) = session_closes w @ [c]"
  using Close_first [OF assms, of env w]
    Close_times_closed [of "kc\<lparr>closed := 1\<rparr>" env m]
  by (simp_all add: close_session_def)

text \<open>
  C2, amended. Let \<open>n\<close> calls of \<^verbatim>\<open>Close\<close> run on a consumer whose closed flag is
  clear and whose session is \<open>c\<close>, interleaved in any way, up to any point. The
  session has been closed at most once. No call has panicked, and a call that has returned
  has returned nil or what closing the session returned. At most one call is past its
  compare-and-swap without having returned nil. Once all calls have returned, the session
  has been closed exactly once, every handle has been asked to close exactly once, one
  call has returned what closing the session returned and all others nil. With no
  \<^verbatim>\<open>Consume\<close> in flight, all calls have returned as soon as each has been scheduled for
  five actions and one per handle; and of calls made one after the other the first
  returns what closing the session returned and the later ones nil.
\<close>

theorem Close_once:
  assumes "closed kc = 0" and "getConsumer kc = Some c"
    and "run_calls env sched (replicate n AtCAS, kc, w) = (ts, kc1, w1)"
  shows
    "(session_closes w1 = session_closes w \<or> session_closes w1 = session_closes w @ [c])
     \<and> list_all (\<lambda>t. case t of
                        Finished r \<Rightarrow> r = Returns None \<or> r = Returns (session_Close env c)
                      | _ \<Rightarrow> True) ts
     \<and> length (filter (\<lambda>t. t \<noteq> AtCAS \<and> t \<noteq> Finished (Returns None)) ts) \<le> 1
     \<and> (0 < n \<and> list_all finished ts \<longrightarrow>
          session_closes w1 = session_closes w @ [c]
          \<and> async_closes w1 = async_closes w @ getPartitionConsumers kc
          \<and> (\<exists>i<n. ts ! i = Finished (Returns (session_Close env c))
                \<and> (\<forall>j<n. j \<noteq> i \<longrightarrow> ts ! j = Finished (Returns None))))
     \<and> (wg kc = 0 \<and> (\<forall>i<n. 5 + length (getPartitionConsumers kc) \<le> count_list sched i) \<longrightarrow>
          list_all finished ts)
     \<and> (wg kc = 0 \<longrightarrow>
          fst (Close_times env (Suc m) kc w) =
            Returns (session_Close env c) # replicate m (Returns None)
          \<and> session_closes (snd (snd (Close_times env (Suc m) kc w))) = session_closes w @ [c])"
proof -
  let ?pcs = "getPartitionConsumers kc"
  have "Close_inv env c kc w (replicate n AtCAS, kc, w)"
    by (rule Close_inv_init [OF assms(1,2)])
  then have "Close_inv env c kc w (run_calls env sched (replicate n AtCAS, kc, w))"
    by (rule Close_inv_run)
  with assms(3) have inv: "Close_inv env c kc w (ts, kc1, w1)"
    by simp
  from run_calls_length [of env sched "(replicate n AtCAS, kc, w)"] assms(3)
  have len: "length ts = n"
    by simp
  have closes: "session_closes w1 = session_closes w \<or> session_closes w1 = session_closes w @ [c]"
    using inv by (auto simp add: Close_inv_def dest: winner_at_closes split: if_splits)
  have returns: "list_all (\<lambda>t. case t of
        Finished r \<Rightarrow> r = Returns None \<or> r = Returns (session_Close env c)
      | _ \<Rightarrow> True) ts"
  proof (cases "closed kc1 = 0")
    case True
    with inv show ?thesis
      by (auto simp add: Close_inv_def list_all_length)
  next
    case False
    with inv obtain i where i: "i < length ts"
      and wi: "winner_at env c ?pcs w w1 (ts ! i)"
      and ot: "\<forall>j<length ts. j \<noteq> i \<longrightarrow> ts ! j = AtCAS \<or> ts ! j = Finished (Returns None)"
      by (auto simp add: Close_inv_def)
    show ?thesis
      unfolding list_all_length
    proof (intro allI impI)
      fix j
      assume j: "j < length ts"
      show "case ts ! j of
          Finished r \<Rightarrow> r = Returns None \<or> r = Returns (session_Close env c)
        | _ \<Rightarrow> True"
      proof (cases "j = i")
        case True
        with wi show ?thesis
          by (cases "ts ! i") simp_all
      next
        case False
        with ot j have "ts ! j = AtCAS \<or> ts ! j = Finished (Returns None)"
          by simp
        then show ?thesis by auto
      qed
    qed
  qed
  have one: "length (filter (\<lambda>t. t \<noteq> AtCAS \<and> t \<noteq> Finished (Returns None)) ts) \<le> 1"
  proof (cases "closed kc1 = 0")
    case True
    with inv have "\<forall>j<length ts. j \<noteq> 0 \<longrightarrow>
        \<not> (ts ! j \<noteq> AtCAS \<and> ts ! j \<noteq> Finished (Returns None))"
      by (auto simp add: Close_inv_def list_all_length)
    then show ?thesis by (rule filter_le_one)
  next
    case False
    with inv obtain i where
      "\<forall>j<length ts. j \<noteq> i \<longrightarrow> ts ! j = AtCAS \<or> ts ! j = Finished (Returns None)"
      by (auto simp add: Close_inv_def)
    then have "\<forall>j<length ts. j \<noteq> i \<longrightarrow>
        \<not> (ts ! j \<noteq> AtCAS \<and> ts ! j \<noteq> Finished (Returns None))"
      by auto
    then show ?thesis by (rule filter_le_one)
  qed
  have all_done: "session_closes w1 = session_closes w @ [c]
      \<and> async_closes w1 = async_closes w @ ?pcs
      \<and> (\<exists>i<n. ts ! i = Finished (Returns (session_Close env c))
            \<and> (\<forall>j<n. j \<noteq> i \<longrightarrow> ts ! j = Finished (Returns None)))"
    if n: "0 < n" and f: "list_all finished ts"
  proof -
    from f len n have f0: "\<forall>j<n. finished (ts ! j)"
      by (simp add: list_all_length)
    have "closed kc1 \<noteq> 0"
    proof
      assume "closed kc1 = 0"
      with inv len n have "ts ! 0 = AtCAS"
        by (simp add: Close_inv_def list_all_length)
      with f0 n show False by auto
    qed
    with inv len obtain i where i: "i < n"
      and wi: "winner_at env c ?pcs w w1 (ts ! i)"
      and ot: "\<forall>j<n. j \<noteq> i \<longrightarrow> ts ! j = AtCAS \<or> ts ! j = Finished (Returns None)"
      by (auto simp add: Close_inv_def)
    from f0 i obtain r where r: "ts ! i = Finished r"
      by (cases "ts ! i") auto
    from wi r have w: "r = Returns (session_Close env c)"
      "session_closes w1 = session_closes w @ [c]" "async_closes w1 = async_closes w @ ?pcs"
      by simp_all
    have "\<forall>j<n. j \<noteq> i \<longrightarrow> ts ! j = Finished (Returns None)"
    proof (intro allI impI)
      fix j
      assume j: "j < n" "j \<noteq> i"
      with ot have "ts ! j = AtCAS \<or> ts ! j = Finished (Returns None)"
        by simp
      moreover from f0 j have "finished (ts ! j)"
        by simp
      ultimately show "ts ! j = Finished (Returns None)"
        by auto
    qed
    with w r i show ?thesis
      by auto
  qed
  have live: "list_all finished ts"
    if g: "wg kc = 0" and fair: "\<forall>i<n. 5 + length ?pcs \<le> count_list sched i"
    unfolding list_all_length
  proof (intro allI impI)
    fix i
    assume i: "i < length ts"
    with len have i': "i < length (replicate n AtCAS)"
      by simp
    from run_calls_progress [OF g i', of env sched w] assms(3) i len fair
    have "remaining (length ?pcs) (ts ! i) = 0"
      by simp
    then show "finished (ts ! i)"
      by (rule remaining_0)
  qed
  from closes returns one all_done live Close_times_first [OF assms(1) _ assms(2), of env m w]
  show ?thesis
    by blast
qed

theorem Close_once_witness:
  "run_calls broker_close_fails
     [1, 0, 2, 1, 0, 2, 1, 0, 2, 1, 0, 2, 1, 0, 2, 1, 0, 2, 1, 0, 2]
     (replicate 3 AtCAS, example_consumer\<lparr>partitionConsumers := Some [(0, 0), (0, 1)]\<rparr>,
      world1) =
   ([Finished (Returns None), Finished (Returns (Some (SaramaError ''close failed''))),
     Finished (Returns None)],
    example_consumer\<lparr>partitionConsumers := Some [(0, 0), (0, 1)], closed := 1\<rparr>,
    world1\<lparr>open_sessions := [], session_closes := [0], async_closes := [(0, 0), (0, 1)]\<rparr>)
   \<and> fst (Close_times
          broker_close_fails 3
          (example_consumer\<lparr>partitionConsumers := Some [(0, 0), (0, 1)]\<rparr>) world1) =
       [Returns (Some (SaramaError ''close failed'')), Returns None, Returns None]"
proof -
  let ?cf = broker_close_fails
  let ?kc = "example_consumer\<lparr>partitionConsumers := Some [(0, 0), (0, 1)]\<rparr>"
  have run: "run_calls ?cf [1, 0, 2, 1, 0, 2, 1, 0, 2, 1, 0, 2, 1, 0, 2, 1, 0, 2, 1, 0, 2]
      (replicate 3 AtCAS, ?kc, world1) =
     ([Finished (Returns None), Finished (Returns (Some (SaramaError ''close failed''))),
       Finished (Returns None)],
      ?kc\<lparr>closed := 1\<rparr>,
      world1\<lparr>open_sessions := [], session_closes := [0], async_closes := [(0, 0), (0, 1)]\<rparr>)"
    by (simp add: step_call_def run_defs numeral_2_eq_2 numeral_3_eq_3)
  from Close_once [OF _ _ run, of 0 2] run show ?thesis
    by (simp add: run_defs numeral_2_eq_2 numeral_3_eq_3)
qed

end
